theory Spec2Isabelle
  imports Complex_Main "HOL-Library.Stream"
begin

section \<open>Numbers, vectors and the random source\<close>

text \<open>
  The program is \<^verbatim>\<open>src/index.tsx\<close>. A JavaScript \<^verbatim>\<open>number\<close> is an IEEE 754
  double; a GLSL \<^verbatim>\<open>float\<close> and an element of a \<^verbatim>\<open>Float32Array\<close> are 32-bit
  floats. Both kinds are real numbers, and an operation returns the representable number
  nearest to its exact result, a tie going to the even significand. \<open>fl p emin\<close> is
  this rounding for a significand of \<open>p\<close> bits and the least exponent \<open>emin\<close> of a
  normal number. A result beyond the largest finite number (an overflow) is not in the
  model, and no theorem below is about such a value.

  The foliage generator, the ease-out function and the snow shader are modelled with this
  rounding, operation by operation: what is claimed of them depends on it. The
  interpolator and the placements of ornaments and photos are in exact arithmetic.
  Counts and indices are \<^typ>\<open>nat\<close>, \<^verbatim>\<open>Date.now()\<close> is an \<^typ>\<open>int\<close> of
  milliseconds.
\<close>

definition round_even :: "real \<Rightarrow> int" where
  "round_even x =
     (let n = \<lfloor>x\<rfloor>; d = x - of_int n
      in if d < 1 / 2 then n else if 1 / 2 < d then n + 1 else if even n then n else n + 1)"

definition fl :: "nat \<Rightarrow> int \<Rightarrow> real \<Rightarrow> real" where
  "fl p emin x =
     (if x = 0 then 0
      else (let e = max \<lfloor>log 2 \<bar>x\<bar>\<rfloor> emin;
                ulp = 2 powi (e - int p + 1)
            in of_int (round_even (x / ulp)) * ulp))"

text \<open>The exponent that \<open>fl\<close> gives a number.\<close>

definition expo :: "int \<Rightarrow> real \<Rightarrow> int" where
  "expo emin x = max \<lfloor>log 2 \<bar>x\<bar>\<rfloor> emin"

text \<open>Doubles and their four operations.\<close>

definition dround :: "real \<Rightarrow> real" where
  "dround = fl 53 (- 1022)"

definition dadd :: "real \<Rightarrow> real \<Rightarrow> real" where
  "dadd a b = dround (a + b)"

definition dsub :: "real \<Rightarrow> real \<Rightarrow> real" where
  "dsub a b = dround (a - b)"

definition dmul :: "real \<Rightarrow> real \<Rightarrow> real" where
  "dmul a b = dround (a * b)"

definition ddiv :: "real \<Rightarrow> real \<Rightarrow> real" where
  "ddiv a b = dround (a / b)"

text \<open>
  32-bit floats and their four operations; \<open>fround\<close> is also what a store into a
  \<^verbatim>\<open>Float32Array\<close> does to a double.
\<close>

definition fround :: "real \<Rightarrow> real" where
  "fround = fl 24 (- 126)"





text \<open>
  ECMAScript leaves the precision of \<^verbatim>\<open>Math.pow\<close>, \<^verbatim>\<open>Math.sqrt\<close>,
  \<^verbatim>\<open>Math.cbrt\<close>, \<^verbatim>\<open>Math.cos\<close>, \<^verbatim>\<open>Math.sin\<close> and \<^verbatim>\<open>Math.acos\<close> to the
  implementation, and GLSL does the same for \<^verbatim>\<open>pow\<close>. These functions are a
  parameter of the model. \<^verbatim>\<open>Math.PI\<close> is the double nearest to \<open>pi\<close>.
\<close>

record Math =
  Math_pow :: "real \<Rightarrow> real \<Rightarrow> real"
  Math_sqrt :: "real \<Rightarrow> real"
  Math_cbrt :: "real \<Rightarrow> real"
  Math_cos :: "real \<Rightarrow> real"
  Math_sin :: "real \<Rightarrow> real"
  Math_acos :: "real \<Rightarrow> real"

definition Math_PI :: real where
  "Math_PI = dround pi"

text \<open>
  One such implementation returns the nearest representable number of the exact value. It
  serves where a theorem is applied to a concrete input.
\<close>

definition pow_nearest :: "(real \<Rightarrow> real) \<Rightarrow> real \<Rightarrow> real \<Rightarrow> real" where
  "pow_nearest rnd b y = rnd (b powr y)"

definition Math_nearest :: Math where
  "Math_nearest =
     \<lparr>Math_pow = pow_nearest dround, Math_sqrt = dround \<circ> sqrt,
      Math_cbrt = dround \<circ> root 3, Math_cos = dround \<circ> cos, Math_sin = dround \<circ> sin,
      Math_acos = dround \<circ> arccos\<rparr>"




text \<open>
  \<^verbatim>\<open>Math.random()\<close> reads the next number of a source that the program does not
  control. The source is a stream of reals, each call takes the head and leaves the tail.
\<close>

type_synonym rng = "real stream"

definition Math_random :: "rng \<Rightarrow> real \<times> rng" where
  "Math_random g = (shd g, stl g)"

text \<open>\<^verbatim>\<open>THREE.Vector3\<close>: the three coordinates x, y, z.\<close>

type_synonym vec3 = "real \<times> real \<times> real"

text \<open>
  \<^verbatim>\<open>THREE.MathUtils.lerp(x, y, t)\<close> of the three.js library returns
  \<^verbatim>\<open>(1 - t) * x + t * y\<close>.
\<close>

definition lerp :: "real \<Rightarrow> real \<Rightarrow> real \<Rightarrow> real" where
  "lerp x y t = (1 - t) * x + t * y"

section \<open>Shaders\<close>






section \<open>The formulas of the specification, in exact arithmetic\<close>



section \<open>Data generation\<close>

text \<open>
  \<^verbatim>\<open>generateFoliageData(count)\<close> allocates three \<^verbatim>\<open>Float32Array\<close>s (filled with
  zeros) and runs \<^verbatim>\<open>for (let i = 0; i < count; i++)\<close>. An array is a list, a write
  \<^verbatim>\<open>a[k] = v\<close> is \<open>a[k := fround v]\<close> (both ignore an index out of range). The
  arithmetic is in doubles; a literal that is not a double, such as \<^verbatim>\<open>0.9\<close>, is the
  double nearest to it. One run of the loop body draws five random numbers, in the order
  of the source.
\<close>

record foliage_data =
  positionsTree :: "real list"
  positionsScatter :: "real list"
  randoms :: "real list"

definition foliage_body ::
    "Math \<Rightarrow> nat \<Rightarrow> nat \<Rightarrow> foliage_data \<times> rng \<Rightarrow> foliage_data \<times> rng" where
  "foliage_body M count i = (\<lambda>(d, g0).
     let t = ddiv (real i) (real count);
         angle = dmul t 250;
         height = 20;
         y = dsub (dmul t height) (ddiv height 2);
         maxRadius = dmul (dsub 1 (Math_pow M t (dround 0.9))) 8.5;
         (u1, g1) = Math_random g0;
         radiusStrata = dadd (dround 0.2) (dmul (dround 0.8) (Math_sqrt M u1));
         r = dmul maxRadius radiusStrata;
         xTree = dmul (Math_cos M angle) r;
         zTree = dmul (Math_sin M angle) r;
         pT = (positionsTree d)
                [i * 3 := fround xTree, i * 3 + 1 := fround y, i * 3 + 2 := fround zTree];
         (u2, g2) = Math_random g1;
         rScatter = dmul 40 (Math_cbrt M u2);
         (u3, g3) = Math_random g2;
         theta = dmul (dmul u3 2) Math_PI;
         (u4, g4) = Math_random g3;
         phi = Math_acos M (dsub (dmul 2 u4) 1);
         pS = (positionsScatter d)
                [i * 3 := fround (dmul (dmul rScatter (Math_sin M phi)) (Math_cos M theta)),
                 i * 3 + 1 := fround (dmul (dmul rScatter (Math_sin M phi)) (Math_sin M theta)),
                 i * 3 + 2 := fround (dmul rScatter (Math_cos M phi))];
         (u5, g5) = Math_random g4;
         rs = (randoms d)[i := fround u5]
     in (\<lparr>positionsTree = pT, positionsScatter = pS, randoms = rs\<rparr>, g5))"

definition generateFoliageData :: "Math \<Rightarrow> nat \<Rightarrow> rng \<Rightarrow> foliage_data" where
  "generateFoliageData M count g =
     fst (fold (foliage_body M count) [0..<count]
            (\<lparr>positionsTree = replicate (count * 3) 0,
              positionsScatter = replicate (count * 3) 0,
              randoms = replicate count 0\<rparr>, g))"

text \<open>
  Particle \<open>i\<close> of a position array is the triple at \<open>3i\<close>, \<open>3i + 1\<close>, \<open>3i + 2\<close>
  (\<^verbatim>\<open>itemSize={3}\<close>); its y coordinate is the middle one.
\<close>

definition treeY :: "foliage_data \<Rightarrow> nat \<Rightarrow> real" where
  "treeY d i = positionsTree d ! (i * 3 + 1)"

definition treeYs :: "foliage_data \<Rightarrow> nat \<Rightarrow> real list" where
  "treeYs d count = map (treeY d) [0..<count]"

text \<open>
  \<^verbatim>\<open>OrnamentSystem\<close>, the \<^verbatim>\<open>useMemo\<close> that fills \<^verbatim>\<open>data\<close>: 400 items, each
  from eight random numbers (\<^verbatim>\<open>t\<close>, \<^verbatim>\<open>angle\<close>, three for \<^verbatim>\<open>scatterPos\<close>,
  \<^verbatim>\<open>scale\<close>, \<^verbatim>\<open>type\<close>, \<^verbatim>\<open>rotationSpeed\<close>).
\<close>

datatype ornament_type = BOX | SPHERE

record ornament =
  treePos :: vec3
  scatterPos :: vec3
  scale :: real
  type :: ornament_type
  rotationSpeed :: real

definition ornament_item :: "rng \<Rightarrow> ornament \<times> rng" where
  "ornament_item g0 =
     (let (t, g1) = Math_random g0;
          height = 18;
          yTree = (t * height) - (height / 2);
          r = (1 - t) * 8;
          (u2, g2) = Math_random g1;
          angle = u2 * pi * 2;
          (u3, g3) = Math_random g2;
          (u4, g4) = Math_random g3;
          (u5, g5) = Math_random g4;
          (u6, g6) = Math_random g5;
          (u7, g7) = Math_random g6;
          (u8, g8) = Math_random g7
      in (\<lparr>treePos = (cos angle * r, yTree, sin angle * r),
           scatterPos = ((u3 - 0.5) * 40, (u4 - 0.5) * 40, (u5 - 0.5) * 40),
           scale = u6 * 0.4 + 0.2,
           type = (if u7 > 0.6 then BOX else SPHERE),
           rotationSpeed = u8 * 0.02\<rparr>, g8))"

definition ornament_body :: "nat \<Rightarrow> ornament list \<times> rng \<Rightarrow> ornament list \<times> rng" where
  "ornament_body i = (\<lambda>(d, g). let (item, g') = ornament_item g in (d @ [item], g'))"

definition OrnamentSystem_data :: "rng \<Rightarrow> ornament list" where
  "OrnamentSystem_data g = fst (fold ornament_body [0..<400] ([], g))"

text \<open>
  \<^verbatim>\<open>PhotoSystem\<close>, the \<^verbatim>\<open>useMemo\<close> that creates the 9 slots. The tree position
  comes from the index, the scatter position from three random numbers.
\<close>

record slot =
  slot_treePos :: vec3
  slot_scatterPos :: vec3

definition slot_body :: "nat \<Rightarrow> nat \<Rightarrow> slot list \<times> rng \<Rightarrow> slot list \<times> rng" where
  "slot_body count i = (\<lambda>(arr, g0).
     let t = real i / real (count - 1);
         h = 14;
         y = (t * h) - (h / 2) + 2;
         r = (1 - t * 0.8) * 8.5;
         angle = t * pi * 4 + (real i * 0.5);
         (u1, g1) = Math_random g0;
         (u2, g2) = Math_random g1;
         (u3, g3) = Math_random g2
     in (arr @ [\<lparr>slot_treePos = (cos angle * r, y, sin angle * r),
                 slot_scatterPos = ((u1 - 0.5) * 50, (u2 - 0.5) * 30, 20 + u3 * 10)\<rparr>], g3))"

definition PhotoSystem_slots :: "rng \<Rightarrow> slot list" where
  "PhotoSystem_slots g = fst (fold (slot_body 9) [0..<9] ([], g))"

section \<open>Per-frame updates\<close>

text \<open>
  \<^verbatim>\<open>FoliageShaderMaterial\<close> starts with both uniforms at 0.
  \<^verbatim>\<open>FoliageSystem\<close>'s frame callback writes them when the material is there
  (\<^verbatim>\<open>if (shaderRef.current)\<close>, the flag \<open>mounted\<close>):
  \<^verbatim>\<open>
  uTime.value = state.clock.elapsedTime;
  uProgress.value = THREE.MathUtils.lerp(uProgress.value, mode, 0.02);
  \<close>
\<close>

record foliage_uniforms =
  uTime :: real
  uProgress :: real

definition FoliageShaderMaterial_uniforms :: foliage_uniforms where
  "FoliageShaderMaterial_uniforms = \<lparr>uTime = 0, uProgress = 0\<rparr>"

definition FoliageSystem_useFrame ::
    "bool \<Rightarrow> real \<Rightarrow> real \<Rightarrow> foliage_uniforms \<Rightarrow> foliage_uniforms" where
  "FoliageSystem_useFrame mounted mode elapsedTime u =
     (if mounted
      then \<lparr>uTime = elapsedTime, uProgress = lerp (uProgress u) mode 0.02\<rparr>
      else u)"

text \<open>
  \<^verbatim>\<open>OrnamentSystem\<close> and \<^verbatim>\<open>Polaroid\<close> keep the progress in a ref
  (\<^verbatim>\<open>currentProgress\<close>, 0 at the start) and advance it first thing in the frame
  callback; \<^verbatim>\<open>Polaroid\<close> returns before that when its group is not there
  (\<^verbatim>\<open>if (!groupRef.current) return;\<close>).
\<close>

definition OrnamentSystem_progress :: "real \<Rightarrow> real \<Rightarrow> real" where
  "OrnamentSystem_progress mode currentProgress = lerp currentProgress mode 0.04"

definition Polaroid_progress :: "bool \<Rightarrow> real \<Rightarrow> real \<Rightarrow> real" where
  "Polaroid_progress mounted mode currentProgress =
     (if \<not> mounted then currentProgress else lerp currentProgress mode 0.03)"
















section \<open>Photo slots\<close>

text \<open>
  \<^verbatim>\<open>const photoUrl = userPhotos.length > 0 ? userPhotos[i % userPhotos.length] : null;\<close>
  The remainder by 0 is \<^verbatim>\<open>NaN\<close> in JavaScript, and an array read at \<^verbatim>\<open>NaN\<close> or
  past the end is \<^verbatim>\<open>undefined\<close>; both are values of the model.
\<close>

datatype js_index = Num nat | NaN

datatype js_value = Str string | Null | Undefined

definition js_rem :: "nat \<Rightarrow> nat \<Rightarrow> js_index" where
  "js_rem i n = (if n = 0 then NaN else Num (i mod n))"

definition array_get :: "string list \<Rightarrow> js_index \<Rightarrow> js_value" where
  "array_get xs k =
     (case k of Num j \<Rightarrow> (if j < length xs then Str (xs ! j) else Undefined)
              | NaN \<Rightarrow> Undefined)"

definition slot_photoUrl :: "string list \<Rightarrow> nat \<Rightarrow> js_value" where
  "slot_photoUrl userPhotos i =
     (if length userPhotos > 0 then array_get userPhotos (js_rem i (length userPhotos))
      else Null)"

text \<open>
  \<^verbatim>\<open>PhotoWrapper\<close>: a string is truthy when it is not empty, \<^verbatim>\<open>null\<close> and
  \<^verbatim>\<open>undefined\<close> are falsy.
  \<^verbatim>\<open>
  const tex = useLoader(THREE.TextureLoader, photoUrl || 'data:image/gif;base64,...');
  const activeTexture = photoUrl ? tex : defaultTexture;
  \<close>
  A texture is known by the address it was loaded from; \<open>defaultTexture\<close> is the
  placeholder that \<^verbatim>\<open>createPlaceholderTexture\<close> draws.
\<close>

definition truthy :: "js_value \<Rightarrow> bool" where
  "truthy v = (case v of Str s \<Rightarrow> s \<noteq> [] | Null \<Rightarrow> False | Undefined \<Rightarrow> False)"

definition blank_gif :: string where
  "blank_gif = ''data:image/gif;base64,R0lGODlhAQABAIAAAAAAAP///yH5BAEAAAAALAAAAAABAAEAAAIBRAA7''"

datatype texture = useLoader string | defaultTexture

record polaroid =
  texture :: texture
  polaroid_treePos :: vec3
  polaroid_scatterPos :: vec3
  mode :: real
  index :: nat
  isFocused :: bool

definition PhotoWrapper :: "slot \<Rightarrow> real \<Rightarrow> nat \<Rightarrow> js_value \<Rightarrow> bool \<Rightarrow> polaroid" where
  "PhotoWrapper sl m i photoUrl focused =
     (let tex = useLoader (case photoUrl of Str s \<Rightarrow> (if s \<noteq> [] then s else blank_gif)
                                         | Null \<Rightarrow> blank_gif | Undefined \<Rightarrow> blank_gif);
          activeTexture = (if truthy photoUrl then tex else defaultTexture)
      in \<lparr>texture = activeTexture, polaroid_treePos = slot_treePos sl,
          polaroid_scatterPos = slot_scatterPos sl, mode = m, index = i,
          isFocused = focused\<rparr>)"

text \<open>
  \<^verbatim>\<open>PhotoSystem\<close> renders one \<^verbatim>\<open>PhotoWrapper\<close> for each slot, with
  \<^verbatim>\<open>isFocused={focusedIdx === i}\<close>.
\<close>

definition PhotoSystem :: "real \<Rightarrow> string list \<Rightarrow> nat option \<Rightarrow> slot list \<Rightarrow> polaroid list" where
  "PhotoSystem m userPhotos focusedIdx slots =
     map (\<lambda>(sl, i). PhotoWrapper sl m i (slot_photoUrl userPhotos i) (focusedIdx = Some i))
       (zip slots [0..<length slots])"

section \<open>Focus\<close>

text \<open>
  The state of \<^verbatim>\<open>Experience\<close>: \<^verbatim>\<open>focusedIdx\<close> (\<^verbatim>\<open>number | null\<close>) and
  \<^verbatim>\<open>fireworksActive\<close>. A click on a photo calls \<^verbatim>\<open>handlePhotoClick\<close> with its
  index; the timer set there clears \<^verbatim>\<open>fireworksActive\<close> 100 ms later; the click
  catcher behind the scene, which calls \<^verbatim>\<open>handleMissed\<close>, is rendered only while
  \<^verbatim>\<open>focusedIdx !== null\<close>.
\<close>

record experience =
  focusedIdx :: "nat option"
  fireworksActive :: bool

definition Experience_init :: experience where
  "Experience_init = \<lparr>focusedIdx = None, fireworksActive = False\<rparr>"

definition handlePhotoClick :: "nat \<Rightarrow> experience \<Rightarrow> experience" where
  "handlePhotoClick idx s =
     (if focusedIdx s = Some idx then s\<lparr>focusedIdx := None\<rparr>
      else s\<lparr>focusedIdx := Some idx, fireworksActive := True\<rparr>)"

definition handleMissed :: "experience \<Rightarrow> experience" where
  "handleMissed s = s\<lparr>focusedIdx := None\<rparr>"

datatype event = PhotoClick nat | BackgroundClick | ResetTrigger

fun Experience_event :: "event \<Rightarrow> experience \<Rightarrow> experience" where
  "Experience_event (PhotoClick idx) s = handlePhotoClick idx s"
| "Experience_event BackgroundClick s = (if focusedIdx s \<noteq> None then handleMissed s else s)"
| "Experience_event ResetTrigger s = s\<lparr>fireworksActive := False\<rparr>"

definition Experience_events :: "event list \<Rightarrow> experience" where
  "Experience_events es = fold Experience_event es Experience_init"

text \<open>What \<^verbatim>\<open>Experience\<close> hands to \<^verbatim>\<open>PhotoSystem\<close> in a state.\<close>

definition Experience_photos :: "real \<Rightarrow> string list \<Rightarrow> rng \<Rightarrow> experience \<Rightarrow> polaroid list" where
  "Experience_photos m userPhotos g s =
     PhotoSystem m userPhotos (focusedIdx s) (PhotoSystem_slots g)"

section \<open>Uploads\<close>

text \<open>
  \<^verbatim>\<open>Array.prototype.slice(start)\<close>: a negative start counts from the end, and the
  start is clamped to the array.
\<close>

definition slice :: "int \<Rightarrow> 'a list \<Rightarrow> 'a list" where
  "slice start xs =
     (let len = int (length xs);
          k = (if start < 0 then max (len + start) 0 else min start len)
      in drop (nat k) xs)"

text \<open>
  The state of \<^verbatim>\<open>App\<close> and \<^verbatim>\<open>handleUpload\<close>. The file list of the input event
  may be \<^verbatim>\<open>null\<close>; \<^verbatim>\<open>processImageFile\<close> turns a file into the address of its
  image and \<^verbatim>\<open>Promise.all\<close> keeps the order of the files.
  \<^verbatim>\<open>
  if (files && files.length > 0) {
      ...
      setUserPhotos(prev => { const next = [...prev, ...results]; return next.slice(-9); });
      if (mode === 0) setMode(1);
  }
  \<close>
\<close>

record app =
  app_mode :: real
  userPhotos :: "string list"

definition App_init :: app where
  "App_init = \<lparr>app_mode = 0, userPhotos = []\<rparr>"

definition handleUpload :: "('f \<Rightarrow> string) \<Rightarrow> 'f list option \<Rightarrow> app \<Rightarrow> app" where
  "handleUpload processImageFile files s =
     (case files of
        None \<Rightarrow> s
      | Some fs \<Rightarrow>
          (if length fs > 0
           then (let results = map processImageFile fs;
                     next = userPhotos s @ results
                 in \<lparr>app_mode = (if app_mode s = 0 then 1 else app_mode s),
                     userPhotos = slice (- 9) next\<rparr>)
           else s))"

text \<open>Uploads of one file each, one after the other.\<close>

definition upload_each :: "('f \<Rightarrow> string) \<Rightarrow> 'f list \<Rightarrow> app \<Rightarrow> app" where
  "upload_each processImageFile fs s =
     fold (\<lambda>f. handleUpload processImageFile (Some [f])) fs s"

section \<open>Rounding\<close>

lemma round_even_int [simp]: "round_even (of_int k) = k"
  by (simp add: round_even_def)



lemma round_even_mono: "x \<le> y \<Longrightarrow> round_even x \<le> round_even y"
proof -
  assume xy: "x \<le> y"
  then have fl: "\<lfloor>x\<rfloor> \<le> \<lfloor>y\<rfloor>" by (rule floor_mono)
  show ?thesis
  proof (cases "\<lfloor>x\<rfloor> = \<lfloor>y\<rfloor>")
    case True
    with xy show ?thesis unfolding round_even_def Let_def by auto
  next
    case False
    with fl have "\<lfloor>x\<rfloor> + 1 \<le> \<lfloor>y\<rfloor>" by simp
    moreover have "round_even x \<le> \<lfloor>x\<rfloor> + 1" unfolding round_even_def Let_def by simp
    moreover have "\<lfloor>y\<rfloor> \<le> round_even y" unfolding round_even_def Let_def by simp
    ultimately show ?thesis by linarith
  qed
qed

lemma round_even_neg: "round_even (- x) = - round_even x"
proof -
  have c: "\<lfloor>- x\<rfloor> = (if x = of_int \<lfloor>x\<rfloor> then - \<lfloor>x\<rfloor> else - \<lfloor>x\<rfloor> - 1)"
    using ceiling_altdef [of x] unfolding ceiling_def by (auto; linarith)
  show ?thesis
  proof (cases "x = of_int \<lfloor>x\<rfloor>")
    case True
    then obtain k where "x = of_int k" ..
    then show ?thesis using round_even_int [of "- k"] by simp
  next
    case False
    then have fl: "\<lfloor>- x\<rfloor> = - \<lfloor>x\<rfloor> - 1" using c by simp
    have lt: "of_int \<lfloor>x\<rfloor> < x" using False of_int_floor_le [of x] by linarith
    have ni: "x \<noteq> of_int n" for n using False by (metis floor_of_int)
    show ?thesis unfolding round_even_def Let_def fl using lt ni by (auto simp: algebra_simps)
  qed
qed


lemma floor_log_binade:
  "2 powi e \<le> \<bar>x\<bar> \<Longrightarrow> \<bar>x\<bar> < 2 powi (e + 1) \<Longrightarrow> \<lfloor>log 2 \<bar>x\<bar>\<rfloor> = e"
proof -
  assume a: "2 powi e \<le> \<bar>x\<bar>" and b: "\<bar>x\<bar> < 2 powi (e + 1)"
  have "0 < (2::real) powi e" by simp
  with a have pos: "0 < \<bar>x\<bar>" by linarith
  have "of_int e \<le> log 2 \<bar>x\<bar>" using a pos by (simp add: le_log_iff powr_real_of_int')
  moreover have "2 powr of_int (e + 1) = (2::real) powi (e + 1)"
    using powr_real_of_int' [of 2 "e + 1"] by simp
  then have "log 2 \<bar>x\<bar> < of_int (e + 1)" using b pos by (simp add: log_less_iff del: of_int_add)
  ultimately show ?thesis by (simp add: floor_eq_iff)
qed

lemma fl_binade:
  "2 powi e \<le> \<bar>x\<bar> \<Longrightarrow> \<bar>x\<bar> < 2 powi (e + 1) \<Longrightarrow> emin \<le> e \<Longrightarrow>
   fl p emin x = of_int (round_even (x / 2 powi (e - int p + 1))) * 2 powi (e - int p + 1)"
proof -
  assume a: "2 powi e \<le> \<bar>x\<bar>" and b: "\<bar>x\<bar> < 2 powi (e + 1)" and c: "emin \<le> e"
  have "0 < (2::real) powi e" by simp
  with a have "0 < \<bar>x\<bar>" by linarith
  then have "x \<noteq> 0" by simp
  moreover have "\<lfloor>log 2 \<bar>x\<bar>\<rfloor> = e" using a b by (rule floor_log_binade)
  ultimately show ?thesis using c by (simp add: fl_def Let_def max_def)
qed

lemma fl_zero [simp]: "fl p emin 0 = 0"
  by (simp add: fl_def)

lemma fl_neg: "fl p emin (- x) = - fl p emin x"
  by (simp add: fl_def Let_def round_even_neg)

lemma fl_expo:
  "x \<noteq> 0 \<Longrightarrow> fl p emin x =
     of_int (round_even (x / 2 powi (expo emin x - int p + 1))) * 2 powi (expo emin x - int p + 1)"
  by (simp add: fl_def Let_def expo_def)

lemma expo_upper: "x \<noteq> 0 \<Longrightarrow> \<bar>x\<bar> < 2 powi (expo emin x + 1)"
proof -
  assume "x \<noteq> 0"
  then have pos: "0 < \<bar>x\<bar>" by simp
  have "log 2 \<bar>x\<bar> < of_int (\<lfloor>log 2 \<bar>x\<bar>\<rfloor> + 1)" by linarith
  also have "\<dots> \<le> of_int (expo emin x + 1)" by (simp add: expo_def)
  finally have "log 2 \<bar>x\<bar> < of_int (expo emin x + 1)" .
  then have "\<bar>x\<bar> < 2 powr of_int (expo emin x + 1)"
    using pos by (simp add: log_less_iff del: of_int_add)
  then show ?thesis using powr_real_of_int' [of 2 "expo emin x + 1"] by simp
qed

lemma expo_lower: "x \<noteq> 0 \<Longrightarrow> emin \<le> \<lfloor>log 2 \<bar>x\<bar>\<rfloor> \<Longrightarrow> 2 powi (expo emin x) \<le> \<bar>x\<bar>"
proof -
  assume "x \<noteq> 0" and e: "emin \<le> \<lfloor>log 2 \<bar>x\<bar>\<rfloor>"
  then have pos: "0 < \<bar>x\<bar>" by simp
  from e have ex: "expo emin x = \<lfloor>log 2 \<bar>x\<bar>\<rfloor>" by (simp add: expo_def)
  have "of_int (expo emin x) \<le> log 2 \<bar>x\<bar>" unfolding ex by simp
  then have "2 powr of_int (expo emin x) \<le> \<bar>x\<bar>" using pos by (simp add: le_log_iff)
  then show ?thesis using powr_real_of_int' [of 2 "expo emin x"] by simp
qed

lemma expo_mono: "0 < x \<Longrightarrow> x \<le> y \<Longrightarrow> expo emin x \<le> expo emin y"
proof -
  assume "0 < x" "x \<le> y"
  then have "log 2 \<bar>x\<bar> \<le> log 2 \<bar>y\<bar>" by simp
  then have "\<lfloor>log 2 \<bar>x\<bar>\<rfloor> \<le> \<lfloor>log 2 \<bar>y\<bar>\<rfloor>" by (rule floor_mono)
  then show ?thesis by (simp add: expo_def)
qed



lemma fl_pos_bounds:
  assumes "0 < x"
  shows "0 \<le> fl p emin x" and "fl p emin x \<le> 2 powi (expo emin x + 1)"
    and "emin \<le> \<lfloor>log 2 \<bar>x\<bar>\<rfloor> \<Longrightarrow> 0 < p \<Longrightarrow> 2 powi (expo emin x) \<le> fl p emin x"
proof -
  let ?k = "expo emin x - int p + 1"
  let ?u = "(2::real) powi ?k"
  have u: "0 < ?u" by simp
  have x: "x \<noteq> 0" using assms by simp
  have "round_even 0 \<le> round_even (x / ?u)"
    using assms u by (intro round_even_mono) simp
  then have "0 \<le> round_even (x / ?u)" using round_even_int [of 0] by simp
  then show "0 \<le> fl p emin x" using u x by (simp add: fl_expo)
  have up: "x / ?u < 2 ^ p"
  proof -
    have "x < 2 powi (expo emin x + 1)" using expo_upper [OF x, of emin] assms by simp
    also have "\<dots> = 2 ^ p * ?u" by (simp add: power_int_diff power_int_add)
    finally show ?thesis using u by (simp add: pos_divide_less_eq)
  qed
  have "round_even (x / ?u) \<le> round_even (of_int (2 ^ p))"
    using up by (intro round_even_mono) simp
  then have "round_even (x / ?u) \<le> 2 ^ p" by (simp only: round_even_int)
  then have "of_int (round_even (x / ?u)) \<le> (2::real) ^ p"
    by (metis of_int_le_iff of_int_numeral of_int_power)
  then have "of_int (round_even (x / ?u)) * ?u \<le> 2 ^ p * ?u" using u by (simp add: mult_right_mono)
  also have "2 ^ p * ?u = 2 powi (expo emin x + 1)" by (simp add: power_int_diff power_int_add)
  finally show "fl p emin x \<le> 2 powi (expo emin x + 1)" using x by (simp add: fl_expo)
  {
    assume e: "emin \<le> \<lfloor>log 2 \<bar>x\<bar>\<rfloor>" and p: "0 < p"
    have "2 powi (expo emin x) \<le> x" using expo_lower [OF x e] assms by simp
    moreover have split: "(2::real) powi (expo emin x) = 2 ^ (p - 1) * ?u"
      using p by (simp add: power_int_diff power_int_add power_diff)
    ultimately have "2 ^ (p - 1) \<le> x / ?u" using u by (simp add: pos_le_divide_eq)
    then have "round_even (of_int (2 ^ (p - 1))) \<le> round_even (x / ?u)"
      by (intro round_even_mono) simp
    then have "2 ^ (p - 1) \<le> round_even (x / ?u)" by (simp only: round_even_int)
    then have "(2::real) ^ (p - 1) \<le> of_int (round_even (x / ?u))"
      by (metis of_int_le_iff of_int_numeral of_int_power)
    then have "2 ^ (p - 1) * ?u \<le> of_int (round_even (x / ?u)) * ?u"
      using u by (simp add: mult_right_mono)
    then show "2 powi (expo emin x) \<le> fl p emin x"
      using x split by (simp add: fl_expo)
  }
qed

lemma fl_mono_pos: "0 < p \<Longrightarrow> 0 < x \<Longrightarrow> x \<le> y \<Longrightarrow> fl p emin x \<le> fl p emin y"
proof -
  assume p: "0 < p" and x: "0 < x" and xy: "x \<le> y"
  then have y: "0 < y" by simp
  have le: "expo emin x \<le> expo emin y" using x xy by (rule expo_mono)
  show ?thesis
  proof (cases "expo emin x = expo emin y")
    case True
    let ?u = "(2::real) powi (expo emin y - int p + 1)"
    have "round_even (x / ?u) \<le> round_even (y / ?u)"
      using xy by (intro round_even_mono divide_right_mono) simp_all
    then have "of_int (round_even (x / ?u)) * ?u \<le> of_int (round_even (y / ?u)) * ?u"
      by (intro mult_right_mono) simp_all
    then show ?thesis using x y True by (simp add: fl_expo)
  next
    case False
    with le have lt: "expo emin x + 1 \<le> expo emin y" by simp
    then have "emin < expo emin y" unfolding expo_def by linarith
    then have e: "emin \<le> \<lfloor>log 2 \<bar>y\<bar>\<rfloor>" unfolding expo_def by linarith
    have "fl p emin x \<le> 2 powi (expo emin x + 1)" using x by (rule fl_pos_bounds)
    also have "\<dots> \<le> 2 powi (expo emin y)" using lt by (intro power_int_increasing) simp_all
    also have "\<dots> \<le> fl p emin y" using y e p by (rule fl_pos_bounds)
    finally show ?thesis .
  qed
qed

lemma fl_mono: "0 < p \<Longrightarrow> x \<le> y \<Longrightarrow> fl p emin x \<le> fl p emin y"
proof -
  assume p: "0 < p" and xy: "x \<le> y"
  consider "0 < x" | "x \<le> 0" "0 \<le> y" | "y < 0" by linarith
  then show ?thesis
  proof cases
    case 1
    then show ?thesis using p xy by (simp add: fl_mono_pos)
  next
    case 2
    have "fl p emin x \<le> 0"
    proof (cases "x = 0")
      case True
      then show ?thesis by simp
    next
      case False
      with 2 have "0 < - x" by simp
      then have "0 \<le> fl p emin (- x)" by (rule fl_pos_bounds)
      then show ?thesis by (simp add: fl_neg)
    qed
    moreover have "0 \<le> fl p emin y"
    proof (cases "y = 0")
      case True
      then show ?thesis by simp
    next
      case False
      with 2 have "0 < y" by simp
      then show ?thesis by (rule fl_pos_bounds)
    qed
    ultimately show ?thesis by linarith
  next
    case 3
    then have "0 < - y" "- y \<le> - x" using xy by simp_all
    then have "fl p emin (- y) \<le> fl p emin (- x)" using p by (simp add: fl_mono_pos)
    then show ?thesis by (simp add: fl_neg)
  qed
qed

lemma dround_eval:
  "2 powi e \<le> \<bar>x\<bar> \<Longrightarrow> \<bar>x\<bar> < 2 powi (e + 1) \<Longrightarrow> - 1022 \<le> e \<Longrightarrow>
   dround x = of_int (round_even (x / 2 powi (e - 52))) * 2 powi (e - 52)"
  using fl_binade [of e x "- 1022" 53] by (simp add: dround_def)

lemma fround_eval:
  "2 powi e \<le> \<bar>x\<bar> \<Longrightarrow> \<bar>x\<bar> < 2 powi (e + 1) \<Longrightarrow> - 126 \<le> e \<Longrightarrow>
   fround x = of_int (round_even (x / 2 powi (e - 23))) * 2 powi (e - 23)"
  using fl_binade [of e x "- 126" 24] by (simp add: fround_def)

lemma dround_mono: "x \<le> y \<Longrightarrow> dround x \<le> dround y"
  by (simp add: dround_def fl_mono)

lemma fround_mono: "x \<le> y \<Longrightarrow> fround x \<le> fround y"
  by (simp add: fround_def fl_mono)



lemma dround_simps [simp]: "dround 0 = 0" "dround 1 = 1"
  using dround_eval [of 0 1] by (simp_all add: dround_def round_even_def)

lemma fround_simps [simp]: "fround 0 = 0" "fround 1 = 1"
  using fround_eval [of 0 1] by (simp_all add: fround_def round_even_def)

lemma dround_values: "dround 10 = 10" "dround (- 10) = - 10"
  using dround_eval [of 3 10] dround_eval [of 3 "- 10"] by (simp_all add: round_even_def)

lemma fround_values [simp]:
  "fround 2 = 2" "fround (- 2) = - 2" "fround (- 4) = - 4" "fround (- 10) = - 10"
  "fround 23 = 23" "fround 25 = 25" "fround (- 29) = - 29" "fround 48 = 48"
  "fround (- 50) = - 50"
  using fround_eval [of 1 2] fround_eval [of 1 "- 2"] fround_eval [of 2 "- 4"]
    fround_eval [of 3 "- 10"] fround_eval [of 4 23] fround_eval [of 4 25]
    fround_eval [of 4 "- 29"] fround_eval [of 5 48] fround_eval [of 5 "- 50"]
  by (simp_all add: round_even_def)




section \<open>The foliage generator\<close>

lemma foliage_body_length:
  "length (positionsTree (fst (foliage_body M c i s))) = length (positionsTree (fst s))
   \<and> length (positionsScatter (fst (foliage_body M c i s))) = length (positionsScatter (fst s))"
  by (cases s) (simp add: foliage_body_def Math_random_def Let_def)

lemma foliage_body_treeY:
  "i * 3 + 1 < length (positionsTree (fst s)) \<Longrightarrow>
   treeY (fst (foliage_body M c i s)) i =
     fround (dsub (dmul (ddiv (real i) (real c)) 20) (ddiv 20 2))"
  by (cases s) (simp add: foliage_body_def Math_random_def Let_def treeY_def)

lemma foliage_body_treeY_other:
  "j \<noteq> i \<Longrightarrow> treeY (fst (foliage_body M c j s)) i = treeY (fst s) i"
  by (cases s) (simp add: foliage_body_def Math_random_def Let_def treeY_def)

lemma foliage_fold_length:
  "length (positionsTree (fst (fold (foliage_body M c) is s))) = length (positionsTree (fst s))
   \<and> length (positionsScatter (fst (fold (foliage_body M c) is s)))
       = length (positionsScatter (fst s))"
  by (induction "is" arbitrary: s) (simp_all add: foliage_body_length)

lemma foliage_fold_treeY:
  "n * 3 \<le> length (positionsTree (fst s)) \<Longrightarrow> i < n \<Longrightarrow>
   treeY (fst (fold (foliage_body M c) [0..<n] s)) i =
     fround (dsub (dmul (ddiv (real i) (real c)) 20) (ddiv 20 2))"
proof (induction n)
  case 0
  then show ?case by simp
next
  case (Suc n)
  let ?s = "fold (foliage_body M c) [0..<n] s"
  have len: "length (positionsTree (fst ?s)) = length (positionsTree (fst s))"
    by (simp add: foliage_fold_length)
  show ?case
  proof (cases "i = n")
    case True
    with Suc.prems len show ?thesis by (simp add: foliage_body_treeY)
  next
    case False
    with Suc show ?thesis by (simp add: foliage_body_treeY_other)
  qed
qed

lemma generateFoliageData_length:
  "length (positionsTree (generateFoliageData M n g)) = n * 3
   \<and> length (positionsScatter (generateFoliageData M n g)) = n * 3"
  by (simp add: generateFoliageData_def foliage_fold_length)

lemma generateFoliageData_treeY:
  "i < n \<Longrightarrow> treeY (generateFoliageData M n g) i =
     fround (dsub (dmul (ddiv (real i) (real n)) 20) (ddiv 20 2))"
  by (simp add: generateFoliageData_def foliage_fold_treeY)

lemma half_height: "ddiv 20 2 = 10"
  by (simp add: ddiv_def dround_values)

lemma treeY_bottom: "0 < n \<Longrightarrow> treeY (generateFoliageData M n g) 0 = - 10"
  by (simp add: generateFoliageData_treeY half_height ddiv_def dmul_def dsub_def dround_values)

lemma treeYs_two: "treeYs (generateFoliageData M 2 g) 2 = [- 10, 0]"
proof -
  have l: "[0..<2] = [0, Suc 0]" by (simp add: upt_rec numeral_2_eq_2)
  have h: "dround (1 / 2) = 1 / 2"
    using dround_eval [of "- 1" "1 / 2"] by (simp add: round_even_def)
  have "treeY (generateFoliageData M 2 g) 0 = - 10" by (simp add: treeY_bottom)
  moreover have "treeY (generateFoliageData M 2 g) 1 = 0"
    by (simp add: generateFoliageData_treeY half_height ddiv_def dmul_def dsub_def h
        dround_values)
  ultimately show ?thesis by (simp add: treeYs_def l)
qed

lemma treeY_top:
  assumes "0 < n" "n \<le> 2 ^ 24" "i < n"
  shows "treeY (generateFoliageData M n g) i \<le> 10 - 1 / 2 ^ 20"
proof -
  have "real i + 1 \<le> real n" using assms by linarith
  then have "real i / real n \<le> 1 - 1 / real n" using assms by (simp add: field_simps)
  also have "\<dots> \<le> 1 - 1 / 2 ^ 24"
  proof -
    have "real n \<le> 2 ^ 24" using assms(2) by (metis of_nat_le_iff of_nat_numeral of_nat_power)
    then have "1 / 2 ^ 24 \<le> 1 / real n" using assms(1) by (intro divide_left_mono) simp_all
    then show ?thesis by simp
  qed
  finally have "ddiv (real i) (real n) \<le> dround (1 - 1 / 2 ^ 24)"
    unfolding ddiv_def by (rule dround_mono)
  also have "dround (1 - 1 / 2 ^ 24) = 1 - 1 / 2 ^ 24"
    using dround_eval [of "- 1" "1 - 1 / 2 ^ 24"] by (simp add: round_even_def)
  finally have t: "ddiv (real i) (real n) \<le> 1 - 1 / 2 ^ 24" .
  have "dmul (ddiv (real i) (real n)) 20 \<le> dround ((1 - 1 / 2 ^ 24) * 20)"
    unfolding dmul_def using t by (intro dround_mono) simp
  also have "dround ((1 - 1 / 2 ^ 24) * 20) = 20 - 20 / 2 ^ 24"
    using dround_eval [of 4 "(1 - 1 / 2 ^ 24) * 20"] by (simp add: round_even_def)
  finally have m: "dmul (ddiv (real i) (real n)) 20 \<le> 20 - 20 / 2 ^ 24" .
  have "dsub (dmul (ddiv (real i) (real n)) 20) (ddiv 20 2) \<le> dround (20 - 20 / 2 ^ 24 - 10)"
    unfolding dsub_def half_height using m by (intro dround_mono) simp
  also have "dround (20 - 20 / 2 ^ 24 - 10) = 10 - 20 / 2 ^ 24"
    using dround_eval [of 3 "20 - 20 / 2 ^ 24 - 10"] by (simp add: round_even_def)
  finally have s: "dsub (dmul (ddiv (real i) (real n)) 20) (ddiv 20 2) \<le> 10 - 20 / 2 ^ 24" .
  have "fround (dsub (dmul (ddiv (real i) (real n)) 20) (ddiv 20 2)) \<le> fround (10 - 20 / 2 ^ 24)"
    using s by (rule fround_mono)
  also have "fround (10 - 20 / 2 ^ 24) = 10 - 1 / 2 ^ 20"
    using fround_eval [of 3 "10 - 20 / 2 ^ 24"] by (simp add: round_even_def)
  finally show ?thesis using assms(3) by (simp add: generateFoliageData_treeY)
qed

text \<open>
  C1. For every count \<open>n\<close> the generator returns \<open>n\<close> tree triples and \<open>n\<close> scatter
  triples (arrays of length \<open>3n\<close>), and the lowest tree height is \<open>- H / 2 = - 10\<close>, at
  particle 0. The highest tree height is not \<open>H / 2 = 10\<close>: the loop takes \<open>i / count\<close>
  only up to \<open>(count - 1) / count\<close>. With two particles the heights are \<open>- 10\<close> and
  \<open>0\<close>, and for every count up to \<open>2 ^ 24\<close> (the program's is 64000) every stored
  height is at most \<open>10 - 1 / 2 ^ 20\<close>.
\<close>

theorem foliage_heights:
  "length (positionsTree (generateFoliageData M n g)) = n * 3
   \<and> length (positionsScatter (generateFoliageData M n g)) = n * 3
   \<and> (0 < n \<longrightarrow> treeY (generateFoliageData M n g) 0 = - (20 / 2))
   \<and> (0 < n \<and> n \<le> 2 ^ 24 \<longrightarrow>
        (\<forall>i<n. treeY (generateFoliageData M n g) i \<le> 20 / 2 - 1 / 2 ^ 20))
   \<and> treeYs (generateFoliageData M 2 g) 2 = [- 10, 0]
   \<and> Max (set (treeYs (generateFoliageData M 2 g) 2)) \<noteq> 20 / 2"
proof -
  have a: "length (positionsTree (generateFoliageData M n g)) = n * 3
      \<and> length (positionsScatter (generateFoliageData M n g)) = n * 3"
    by (rule generateFoliageData_length)
  have b: "0 < n \<longrightarrow> treeY (generateFoliageData M n g) 0 = - (20 / 2)"
    by (simp add: treeY_bottom)
  have c: "0 < n \<and> n \<le> 2 ^ 24 \<longrightarrow>
        (\<forall>i<n. treeY (generateFoliageData M n g) i \<le> 20 / 2 - 1 / 2 ^ 20)"
    using treeY_top [of n _ M g] by simp
  have d: "treeYs (generateFoliageData M 2 g) 2 = [- 10, 0]"
    by (rule treeYs_two)
  have e: "Max (set (treeYs (generateFoliageData M 2 g) 2)) \<noteq> 20 / 2"
    unfolding d by simp
  from a b c d e show ?thesis by blast
qed

theorem foliage_heights_witness:
  "(0::nat) < 64000 \<and> (64000::nat) \<le> 2 ^ 24
   \<and> length (positionsTree (generateFoliageData Math_nearest 64000 (sconst 0))) = 64000 * 3
   \<and> treeY (generateFoliageData Math_nearest 64000 (sconst 0)) 0 = - 10
   \<and> treeY (generateFoliageData Math_nearest 64000 (sconst 0)) 63999 \<le> 10 - 1 / 2 ^ 20"
proof -
  have h: "(0::nat) < 64000 \<and> (64000::nat) \<le> 2 ^ 24" by simp
  have i: "(63999::nat) < 64000" by simp
  from foliage_heights [of Math_nearest 64000 "sconst 0"] h
  have "\<forall>i<64000. treeY (generateFoliageData Math_nearest 64000 (sconst 0)) i
          \<le> 20 / 2 - 1 / 2 ^ 20"
    by blast
  with i have "treeY (generateFoliageData Math_nearest 64000 (sconst 0)) 63999
      \<le> 20 / 2 - 1 / 2 ^ 20"
    by blast
  with h foliage_heights [of Math_nearest 64000 "sconst 0"] show ?thesis by simp
qed

section \<open>The ease-out function\<close>


















section \<open>The transition interpolator\<close>

lemma lerp_step: "lerp p m k = p + (m - p) * k"
  by (simp add: lerp_def algebra_simps)

lemma foliage_frames:
  "1 - uProgress (fold (FoliageSystem_useFrame True 1) ts u) =
     (1 - 0.02) ^ length ts * (1 - uProgress u)"
proof (induction ts arbitrary: u)
  case Nil
  show ?case by simp
next
  case (Cons t ts)
  have "1 - uProgress (FoliageSystem_useFrame True 1 t u) = (1 - 0.02) * (1 - uProgress u)"
    by (simp add: FoliageSystem_useFrame_def lerp_def algebra_simps)
  then show ?case by (simp add: Cons.IH)
qed

lemma ornament_frames:
  "1 - (OrnamentSystem_progress 1 ^^ n) p = (1 - 0.04) ^ n * (1 - p)"
proof (induction n)
  case 0
  show ?case by simp
next
  case (Suc n)
  have "1 - (OrnamentSystem_progress 1 ^^ Suc n) p =
      (1 - 0.04) * (1 - (OrnamentSystem_progress 1 ^^ n) p)"
    by (simp add: OrnamentSystem_progress_def lerp_def algebra_simps)
  also have "\<dots> = (1 - 0.04) * ((1 - 0.04) ^ n * (1 - p))"
    by (simp only: Suc)
  finally show ?case by simp
qed

lemma polaroid_frames:
  "1 - (Polaroid_progress True 1 ^^ n) p = (1 - 0.03) ^ n * (1 - p)"
proof (induction n)
  case 0
  show ?case by simp
next
  case (Suc n)
  have "1 - (Polaroid_progress True 1 ^^ Suc n) p =
      (1 - 0.03) * (1 - (Polaroid_progress True 1 ^^ n) p)"
    by (simp add: Polaroid_progress_def lerp_def algebra_simps)
  also have "\<dots> = (1 - 0.03) * ((1 - 0.03) ^ n * (1 - p))"
    by (simp only: Suc)
  finally show ?case by simp
qed

lemma pow_hundred: "0.132 < (1 - 0.02 :: real) ^ 100 \<and> (1 - 0.02 :: real) ^ 100 < 0.133"
  by (simp add: power_divide)

text \<open>
  C3. A frame moves the progress by \<open>(mode - progress) * k\<close>, with \<open>k = 0.02\<close> for the
  foliage, \<open>0.04\<close> for the ornaments and \<open>0.03\<close> for the photos. From progress 0 and
  with the mode held at 1, the progress after \<open>n\<close> frames is \<open>1 - (1 - k) ^ n\<close>; for the
  foliage after 100 frames it is within a thousandth of 0.867.
\<close>

theorem interpolator_convergence:
  "uProgress (FoliageSystem_useFrame True m time u) = uProgress u + (m - uProgress u) * 0.02
   \<and> OrnamentSystem_progress m p = p + (m - p) * 0.04
   \<and> Polaroid_progress True m p = p + (m - p) * 0.03
   \<and> uProgress (fold (FoliageSystem_useFrame True 1) clocks FoliageShaderMaterial_uniforms)
       = 1 - (1 - 0.02) ^ length clocks
   \<and> (OrnamentSystem_progress 1 ^^ n) 0 = 1 - (1 - 0.04) ^ n
   \<and> (Polaroid_progress True 1 ^^ n) 0 = 1 - (1 - 0.03) ^ n
   \<and> (length clocks = 100 \<longrightarrow>
        \<bar>uProgress (fold (FoliageSystem_useFrame True 1) clocks FoliageShaderMaterial_uniforms)
           - 0.867\<bar> < 0.001)"
proof -
  have a: "uProgress (FoliageSystem_useFrame True m time u) = uProgress u + (m - uProgress u) * 0.02"
    by (simp add: FoliageSystem_useFrame_def lerp_step)
  have b: "OrnamentSystem_progress m p = p + (m - p) * 0.04"
    by (simp add: OrnamentSystem_progress_def lerp_step)
  have c: "Polaroid_progress True m p = p + (m - p) * 0.03"
    by (simp add: Polaroid_progress_def lerp_step)
  have d: "uProgress (fold (FoliageSystem_useFrame True 1) clocks FoliageShaderMaterial_uniforms)
       = 1 - (1 - 0.02) ^ length clocks"
    using foliage_frames [of clocks FoliageShaderMaterial_uniforms]
    by (simp add: FoliageShaderMaterial_uniforms_def)
  have e: "(OrnamentSystem_progress 1 ^^ n) 0 = 1 - (1 - 0.04) ^ n"
    using ornament_frames [of n 0] by simp
  have f: "(Polaroid_progress True 1 ^^ n) 0 = 1 - (1 - 0.03) ^ n"
    using polaroid_frames [of n 0] by simp
  have g: "length clocks = 100 \<longrightarrow>
        \<bar>uProgress (fold (FoliageSystem_useFrame True 1) clocks FoliageShaderMaterial_uniforms)
           - 0.867\<bar> < 0.001"
    unfolding d using pow_hundred by auto
  from a b c d e f g show ?thesis by blast
qed

theorem interpolator_convergence_witness:
  "length (replicate 100 (0::real)) = 100
   \<and> \<bar>uProgress (fold (FoliageSystem_useFrame True 1) (replicate 100 0)
       FoliageShaderMaterial_uniforms) - 0.867\<bar> < 0.001"
proof -
  have h: "length (replicate 100 (0::real)) = 100" by simp
  then show ?thesis
    using interpolator_convergence [where clocks = "replicate 100 0" and m = 0 and time = 0
        and u = FoliageShaderMaterial_uniforms and p = 0 and n = 0]
    by blast
qed

section \<open>Focus\<close>

lemma slot_body_fst:
  "fst (slot_body c i s) = fst s @
     [\<lparr>slot_treePos =
         (let t = real i / real (c - 1); r = (1 - t * 0.8) * 8.5;
              angle = t * pi * 4 + real i * 0.5
          in (cos angle * r, t * 14 - 14 / 2 + 2, sin angle * r)),
       slot_scatterPos = ((shd (snd s) - 0.5) * 50, (shd (stl (snd s)) - 0.5) * 30,
                          20 + shd (stl (stl (snd s))) * 10)\<rparr>]"
  by (cases s) (simp add: slot_body_def Math_random_def Let_def)

lemma slot_fold:
  "length (fst (fold (slot_body c) [0..<n] ([], g))) = n
   \<and> (\<forall>i<n. slot_treePos (fst (fold (slot_body c) [0..<n] ([], g)) ! i) =
         (let t = real i / real (c - 1); r = (1 - t * 0.8) * 8.5;
              angle = t * pi * 4 + real i * 0.5
          in (cos angle * r, t * 14 - 14 / 2 + 2, sin angle * r)))"
proof (induction n)
  case 0
  show ?case by simp
next
  case (Suc n)
  then show ?case by (simp add: slot_body_fst nth_append less_Suc_eq)
qed

lemma PhotoSystem_slots_length: "length (PhotoSystem_slots g) = 9"
  using slot_fold [of 9 9 g] by (simp add: PhotoSystem_slots_def)

lemma PhotoSystem_nth:
  "i < length slots \<Longrightarrow>
   PhotoSystem m ps f slots ! i = PhotoWrapper (slots ! i) m i (slot_photoUrl ps i) (f = Some i)"
  by (simp add: PhotoSystem_def)

lemma filter_focused_le:
  "distinct (map snd xs) \<Longrightarrow> length (filter (\<lambda>x. f = Some (snd x)) xs) \<le> 1"
proof (induction xs)
  case Nil
  show ?case by simp
next
  case (Cons x xs)
  show ?case
  proof (cases "f = Some (snd x)")
    case True
    with Cons.prems have "\<forall>y\<in>set xs. f \<noteq> Some (snd y)" by (auto simp: image_iff)
    then have "filter (\<lambda>x. f = Some (snd x)) xs = []" by (simp add: filter_empty_conv)
    with True show ?thesis by simp
  next
    case False
    with Cons show ?thesis by simp
  qed
qed

lemma PhotoSystem_focused_le: "length (filter isFocused (PhotoSystem m ps f slots)) \<le> 1"
proof -
  have "filter isFocused (PhotoSystem m ps f slots) =
      map (\<lambda>x. PhotoWrapper (fst x) m (snd x) (slot_photoUrl ps (snd x)) (f = Some (snd x)))
        (filter (\<lambda>x. f = Some (snd x)) (zip slots [0..<length slots]))"
    by (simp add: PhotoSystem_def filter_map comp_def case_prod_beta PhotoWrapper_def Let_def)
  moreover have "distinct (map snd (zip slots [0..<length slots]))" by simp
  ultimately show ?thesis using filter_focused_le [of "zip slots [0..<length slots]" f] by simp
qed

text \<open>
  C4. After any sequence of events (clicks on photos, clicks on the background, the
  firework timer) at most one of the rendered photos has \<open>isFocused\<close>; slot \<open>i\<close> is
  focused exactly when \<open>focusedIdx\<close> is \<open>i\<close>. A click on the focused photo clears
  \<open>focusedIdx\<close>, a click on another photo moves the focus to that one, and a click on
  the background leaves nothing focused.
\<close>

theorem focus_invariant:
  "length (filter isFocused (Experience_photos m ps g (Experience_events es))) \<le> 1
   \<and> (\<forall>i<9. isFocused (Experience_photos m ps g s ! i) = (focusedIdx s = Some i))
   \<and> (focusedIdx s = Some i \<longrightarrow> focusedIdx (handlePhotoClick i s) = None)
   \<and> (focusedIdx s = Some i \<and> j \<noteq> i \<longrightarrow> focusedIdx (handlePhotoClick j s) = Some j)
   \<and> focusedIdx (Experience_event BackgroundClick s) = None"
proof -
  have a: "length (filter isFocused (Experience_photos m ps g (Experience_events es))) \<le> 1"
    unfolding Experience_photos_def by (rule PhotoSystem_focused_le)
  have b: "\<forall>i<9. isFocused (Experience_photos m ps g s ! i) = (focusedIdx s = Some i)"
    by (simp add: Experience_photos_def PhotoSystem_nth PhotoSystem_slots_length
        PhotoWrapper_def Let_def)
  have c: "focusedIdx s = Some i \<longrightarrow> focusedIdx (handlePhotoClick i s) = None"
    by (simp add: handlePhotoClick_def)
  have d: "focusedIdx s = Some i \<and> j \<noteq> i \<longrightarrow> focusedIdx (handlePhotoClick j s) = Some j"
    by (simp add: handlePhotoClick_def)
  have e: "focusedIdx (Experience_event BackgroundClick s) = None"
    by (simp add: handleMissed_def)
  from a b c d e show ?thesis by blast
qed

theorem focus_invariant_witness:
  "focusedIdx (Experience_events [PhotoClick 2]) = Some 2
   \<and> focusedIdx (handlePhotoClick 2 (Experience_events [PhotoClick 2])) = None
   \<and> focusedIdx (handlePhotoClick 5 (Experience_events [PhotoClick 2])) = Some 5
   \<and> isFocused (Experience_photos 1 [] (sconst 0) (Experience_events [PhotoClick 2]) ! 2)
   \<and> \<not> isFocused (Experience_photos 1 [] (sconst 0) (Experience_events [PhotoClick 2]) ! 3)"
  using focus_invariant [where m = 1 and ps = "[]" and g = "sconst 0" and es = "[PhotoClick 2]"
      and s = "Experience_events [PhotoClick 2]" and i = 2 and j = 5]
  by (simp add: Experience_events_def Experience_init_def handlePhotoClick_def)

section \<open>Uploads\<close>

lemma slice_last9: "slice (- 9) xs = drop (length xs - 9) xs"
  by (simp add: slice_def Let_def nat_diff_distrib' max_def) 

lemma handleUpload_photos:
  "fs \<noteq> [] \<Longrightarrow> userPhotos (handleUpload p (Some fs) s) =
     drop (length (userPhotos s @ map p fs) - 9) (userPhotos s @ map p fs)"
  by (simp add: handleUpload_def slice_last9 Let_def)

lemma last9_append:
  "drop (length (drop (length xs - 9) xs @ ys) - 9) (drop (length xs - 9) xs @ ys) =
   drop (length (xs @ ys) - 9) (xs @ ys)"
proof -
  have r: "drop (length zs - 9) zs = rev (take 9 (rev zs))" for zs :: "'a list"
    by (simp add: rev_take)
  show ?thesis unfolding r by (simp add: min_def)
qed

lemma upload_each_photos:
  "length (userPhotos s) \<le> 9 \<Longrightarrow>
   userPhotos (upload_each p fs s) =
     drop (length (userPhotos s @ map p fs) - 9) (userPhotos s @ map p fs)"
proof (induction fs arbitrary: s)
  case Nil
  then show ?case by (simp add: upload_each_def)
next
  case (Cons f fs)
  let ?s = "handleUpload p (Some [f]) s"
  have ph: "userPhotos ?s = drop (length (userPhotos s @ [p f]) - 9) (userPhotos s @ [p f])"
    using handleUpload_photos [of "[f]" p s] by simp
  then have len: "length (userPhotos ?s) \<le> 9" by simp
  have "userPhotos (upload_each p (f # fs) s) = userPhotos (upload_each p fs ?s)"
    by (simp add: upload_each_def)
  also have "\<dots> = drop (length (userPhotos ?s @ map p fs) - 9) (userPhotos ?s @ map p fs)"
    using Cons.IH [OF len] .
  also have "\<dots> = drop (length ((userPhotos s @ [p f]) @ map p fs) - 9) ((userPhotos s @ [p f]) @ map p fs)"
    unfolding ph by (rule last9_append)
  finally show ?case by simp
qed

text \<open>
  C5. An upload of at least one file appends the new addresses in order and keeps the
  last 9 of the result, so the list never holds more than 9. Uploading the files of a
  list one at a time, from the empty list, leaves the last 9 of them in upload order; for
  12 files these are the files after the first three.
\<close>

theorem upload_fifo:
  "userPhotos (handleUpload p (Some (f # fs)) s) =
     drop (length (userPhotos s @ map p (f # fs)) - 9) (userPhotos s @ map p (f # fs))
   \<and> length (userPhotos (handleUpload p (Some (f # fs)) s)) \<le> 9
   \<and> userPhotos (upload_each p files App_init) = drop (length files - 9) (map p files)
   \<and> (length files = 12 \<longrightarrow>
        userPhotos (upload_each p files App_init) = map p (drop 3 files))"
proof -
  have a: "userPhotos (handleUpload p (Some (f # fs)) s) =
     drop (length (userPhotos s @ map p (f # fs)) - 9) (userPhotos s @ map p (f # fs))"
    by (rule handleUpload_photos) simp
  have b: "length (userPhotos (handleUpload p (Some (f # fs)) s)) \<le> 9"
    unfolding a by simp
  have c: "userPhotos (upload_each p files App_init) = drop (length files - 9) (map p files)"
    using upload_each_photos [of App_init p files] by (simp add: App_init_def)
  have d: "length files = 12 \<longrightarrow>
      userPhotos (upload_each p files App_init) = map p (drop 3 files)"
    unfolding c by (simp add: drop_map)
  from a b c d show ?thesis by blast
qed

theorem upload_fifo_witness:
  "userPhotos (upload_each id [''a'', ''b'', ''c'', ''d'', ''e'', ''f'', ''g'', ''h'', ''i'', ''j'', ''k'', ''l''] App_init)
     = [''d'', ''e'', ''f'', ''g'', ''h'', ''i'', ''j'', ''k'', ''l'']"
  using upload_fifo [where p = id and files = "[''a'', ''b'', ''c'', ''d'', ''e'', ''f'', ''g'', ''h'', ''i'', ''j'', ''k'', ''l'']"]
  by simp

section \<open>Firework bursts\<close>


















section \<open>Snow\<close>









section \<open>Tree placements of photos and ornaments\<close>

lemma ornament_item_eq:
  "treePos (fst (ornament_item g)) =
     (let t = shd g; angle = shd (stl g) * pi * 2; r = (1 - t) * 8
      in (cos angle * r, t * 18 - 18 / 2, sin angle * r))
   \<and> snd (ornament_item g) = sdrop 8 g"
  by (simp add: ornament_item_def Math_random_def Let_def eval_nat_numeral)

lemma ornament_fold:
  "snd (fold ornament_body [0..<n] ([], g)) = sdrop (8 * n) g
   \<and> length (fst (fold ornament_body [0..<n] ([], g))) = n
   \<and> (\<forall>i<n. fst (fold ornament_body [0..<n] ([], g)) ! i = fst (ornament_item (sdrop (8 * i) g)))"
proof (induction n)
  case 0
  show ?case by simp
next
  case (Suc n)
  obtain d h where dh: "fold ornament_body [0..<n] ([], g) = (d, h)" by (cases "fold ornament_body [0..<n] ([], g)")
  obtain it h' where it: "ornament_item h = (it, h')" by (cases "ornament_item h")
  from Suc dh have h: "h = sdrop (8 * n) g" and len: "length d = n"
    and nth: "\<forall>i<n. d ! i = fst (ornament_item (sdrop (8 * i) g))" by simp_all
  have step: "fold ornament_body [0..<Suc n] ([], g) = (d @ [it], h')"
    by (simp add: dh ornament_body_def it)
  have "h' = sdrop 8 h" using ornament_item_eq [of h] it by simp
  then have h': "h' = sdrop (8 * Suc n) g" by (simp add: h add.commute)
  have "it = fst (ornament_item (sdrop (8 * n) g))" using it h by simp
  then show ?case unfolding step using len nth h' by (simp add: nth_append less_Suc_eq)
qed

lemma ornament_treePos:
  "i < 400 \<Longrightarrow> treePos (OrnamentSystem_data g ! i) =
     (let t = g !! (8 * i); angle = g !! (8 * i + 1) * pi * 2; r = (1 - t) * 8
      in (cos angle * r, t * 18 - 18 / 2, sin angle * r))"
  using ornament_fold [of 400 g] ornament_item_eq [of "sdrop (8 * i) g"]
  by (simp add: OrnamentSystem_data_def sdrop_snth Let_def flip: snth.simps)


lemma PhotoSystem_slots_treePos:
  "i < 9 \<Longrightarrow> slot_treePos (PhotoSystem_slots g ! i) =
     (let t = real i / 8; r = (1 - t * 0.8) * 8.5; angle = t * pi * 4 + real i * 0.5
      in (cos angle * r, t * 14 - 14 / 2 + 2, sin angle * r))"
  using slot_fold [of 9 9 g] by (simp add: PhotoSystem_slots_def)

lemma OrnamentSystem_data_length: "length (OrnamentSystem_data g) = 400"
  using ornament_fold [of 400 g] by (simp add: OrnamentSystem_data_def)

text \<open>
  C8, as the code has it. The tree position of photo slot \<open>i\<close> is a spiral in the index
  alone (height \<open>14 i / 8 - 5\<close>, radius \<open>(1 - 0.8 i / 8) * 8.5\<close>, angle
  \<open>4 pi i / 8 + 0.5 i\<close>) and is the same for every random source. The tree position of
  ornament \<open>i\<close> does not use the index: its height and radius come from one random
  number and its angle from another (the draws \<open>8i\<close> and \<open>8i + 1\<close> of the source).
\<close>

theorem tree_placements:
  "length (PhotoSystem_slots g) = 9
   \<and> (\<forall>i<9. slot_treePos (PhotoSystem_slots g ! i) =
         (let t = real i / 8; r = (1 - t * 0.8) * 8.5; angle = t * pi * 4 + real i * 0.5
          in (cos angle * r, t * 14 - 14 / 2 + 2, sin angle * r)))
   \<and> (\<forall>i<9. slot_treePos (PhotoSystem_slots g ! i) = slot_treePos (PhotoSystem_slots g' ! i))
   \<and> length (OrnamentSystem_data g) = 400
   \<and> (\<forall>i<400. treePos (OrnamentSystem_data g ! i) =
         (let t = g !! (8 * i); angle = g !! (8 * i + 1) * pi * 2; r = (1 - t) * 8
          in (cos angle * r, t * 18 - 18 / 2, sin angle * r)))"
proof -
  have a: "length (PhotoSystem_slots g) = 9" by (rule PhotoSystem_slots_length)
  have b: "\<forall>i<9. slot_treePos (PhotoSystem_slots g ! i) =
         (let t = real i / 8; r = (1 - t * 0.8) * 8.5; angle = t * pi * 4 + real i * 0.5
          in (cos angle * r, t * 14 - 14 / 2 + 2, sin angle * r))"
    using PhotoSystem_slots_treePos by blast
  have c: "\<forall>i<9. slot_treePos (PhotoSystem_slots g ! i) = slot_treePos (PhotoSystem_slots g' ! i)"
    by (simp add: PhotoSystem_slots_treePos)
  have d: "length (OrnamentSystem_data g) = 400" by (rule OrnamentSystem_data_length)
  have e: "\<forall>i<400. treePos (OrnamentSystem_data g ! i) =
         (let t = g !! (8 * i); angle = g !! (8 * i + 1) * pi * 2; r = (1 - t) * 8
          in (cos angle * r, t * 18 - 18 / 2, sin angle * r))"
    using ornament_treePos by blast
  from a b c d e show ?thesis by blast
qed

theorem tree_placements_witness:
  "slot_treePos (PhotoSystem_slots (sconst 0) ! 0) = (8.5, - 5, 0)
   \<and> slot_treePos (PhotoSystem_slots (sconst 0) ! 0) = slot_treePos (PhotoSystem_slots (sconst (1 / 2)) ! 0)
   \<and> treePos (OrnamentSystem_data (sconst 0) ! 7) = (8, - 9, 0)
   \<and> treePos (OrnamentSystem_data (sconst (1 / 2)) ! 7) = (- 4, 0, 0)"
  using tree_placements [of "sconst 0" "sconst (1 / 2)"] tree_placements [of "sconst (1 / 2)" "sconst 0"]
  by (simp add: Let_def)

text \<open>
  C8 as the claim states it makes the tree position of an ornament a function of its
  index. Two random sources give ornament 0 two different tree positions.
\<close>

theorem ornament_placement_counterexample:
  "treePos (OrnamentSystem_data (sconst 0) ! 0) = (8, - 9, 0)
   \<and> treePos (OrnamentSystem_data (sconst (1 / 2)) ! 0) = (- 4, 0, 0)
   \<and> treePos (OrnamentSystem_data (sconst 0) ! 0)
       \<noteq> treePos (OrnamentSystem_data (sconst (1 / 2)) ! 0)"
  by (simp add: ornament_treePos)

section \<open>Photos of the slots\<close>

lemma slot_photoUrl_cyclic:
  "0 < length ps \<Longrightarrow> slot_photoUrl ps i = Str (ps ! (i mod length ps))"
  by (simp add: slot_photoUrl_def js_rem_def array_get_def)

text \<open>
  C9. With at least one and fewer than nine uploaded photos, slot \<open>i\<close> (of the 9) is
  bound to the photo at index \<open>i mod\<close> the number of photos, and its texture is the one
  loaded from that address (an address is never the empty string).
\<close>

theorem cyclic_assignment:
  "1 \<le> length ps \<and> length ps < 9 \<and> i < 9 \<longrightarrow>
     slot_photoUrl ps i = Str (ps ! (i mod length ps))
     \<and> (ps ! (i mod length ps) \<noteq> [] \<longrightarrow>
          texture (PhotoSystem m ps f (PhotoSystem_slots g) ! i)
            = useLoader (ps ! (i mod length ps)))"
proof (intro impI)
  assume h: "1 \<le> length ps \<and> length ps < 9 \<and> i < 9"
  then have "0 < length ps" by linarith
  then have url: "slot_photoUrl ps i = Str (ps ! (i mod length ps))"
    by (rule slot_photoUrl_cyclic)
  from h have "PhotoSystem m ps f (PhotoSystem_slots g) ! i =
      PhotoWrapper (PhotoSystem_slots g ! i) m i (slot_photoUrl ps i) (f = Some i)"
    by (simp add: PhotoSystem_nth PhotoSystem_slots_length)
  then have "ps ! (i mod length ps) \<noteq> [] \<longrightarrow>
      texture (PhotoSystem m ps f (PhotoSystem_slots g) ! i) = useLoader (ps ! (i mod length ps))"
    by (simp add: url PhotoWrapper_def truthy_def Let_def)
  with url show "slot_photoUrl ps i = Str (ps ! (i mod length ps))
     \<and> (ps ! (i mod length ps) \<noteq> [] \<longrightarrow>
          texture (PhotoSystem m ps f (PhotoSystem_slots g) ! i)
            = useLoader (ps ! (i mod length ps)))" by blast
qed

theorem cyclic_assignment_witness:
  "slot_photoUrl [''blob:a'', ''blob:b''] 5 = Str ''blob:b''
   \<and> texture (PhotoSystem 1 [''blob:a'', ''blob:b''] None (PhotoSystem_slots (sconst 0)) ! 5)
       = useLoader ''blob:b''"
proof -
  have m: "[''blob:a'', ''blob:b''] ! (5 mod length [''blob:a'', ''blob:b'']) = ''blob:b''"
    by code_simp
  have l: "1 \<le> length [''blob:a'', ''blob:b''] \<and> length [''blob:a'', ''blob:b''] < 9 \<and> (5::nat) < 9"
    by simp
  show ?thesis
    using cyclic_assignment [of "[''blob:a'', ''blob:b'']" 5 1 None "sconst 0"] l
    unfolding m by simp
qed

text \<open>
  C10. With no uploaded photo the guard gives \<open>null\<close> for every slot, not the
  \<open>undefined\<close> that a read at the remainder by 0 would give; no list of photos makes
  the binding \<open>undefined\<close>; and all 9 slots get the placeholder texture.
\<close>

theorem empty_photos:
  "slot_photoUrl [] i = Null
   \<and> array_get [] (js_rem i (length ([] :: string list))) = Undefined
   \<and> slot_photoUrl ps i \<noteq> Undefined
   \<and> map texture (PhotoSystem m [] f (PhotoSystem_slots g)) = replicate 9 defaultTexture"
proof -
  have a: "slot_photoUrl [] i = Null" by (simp add: slot_photoUrl_def)
  have b: "array_get [] (js_rem i (length ([] :: string list))) = Undefined"
    by (simp add: js_rem_def array_get_def)
  have c: "slot_photoUrl ps i \<noteq> Undefined"
    by (simp add: slot_photoUrl_def js_rem_def array_get_def)
  have d: "map texture (PhotoSystem m [] f (PhotoSystem_slots g)) = replicate 9 defaultTexture"
    by (rule nth_equalityI)
      (simp_all add: PhotoSystem_def PhotoSystem_slots_length PhotoWrapper_def
        truthy_def Let_def slot_photoUrl_def)
  from a b c d show ?thesis by blast
qed

theorem empty_photos_witness:
  "slot_photoUrl [] 3 = Null
   \<and> map texture (PhotoSystem 1 [] None (PhotoSystem_slots (sconst 0)))
       = replicate 9 defaultTexture"
  using empty_photos [where i = 3 and ps = "[]" and m = 1 and f = None and g = "sconst 0"]
  by simp

end
